theory Spec2Isabelle
  imports Complex_Main
begin

section \<open>Data model\<close>

text \<open>
  The module \<^verbatim>\<open>io_scs_tools/utils/curve.py\<close> computes with Python floats and with
  \<^verbatim>\<open>mathutils.Vector\<close>. Floats are idealised as real numbers throughout: rounding,
  infinities and NaN are outside the model, and every statement below is a statement
  about exact real arithmetic. Python integers (\<^verbatim>\<open>measure_steps\<close>,
  \<^verbatim>\<open>curve_steps\<close>, \<^verbatim>\<open>part_count\<close>) are \<^typ>\<open>int\<close>.

  The code itself rounds after every operation: Python floats are IEEE doubles, and a
  \<^verbatim>\<open>mathutils.Vector\<close> stores its components in single precision. A value of the
  code therefore differs from the value of the model by rounding error. Equalities
  between branches and between values that the code copies are not affected;
  identities that rest on a cancellation, strict bounds and comparisons of two
  computed values hold of the code only up to that error, and the statements that
  depend on it say so.
\<close>

text \<open>\<^verbatim>\<open>mathutils.Vector\<close> with three components; \<^verbatim>\<open>v[0]\<close>, \<^verbatim>\<open>v[1]\<close>, \<^verbatim>\<open>v[2]\<close>
  (also \<^verbatim>\<open>v.x\<close>, \<^verbatim>\<open>v.y\<close>, \<^verbatim>\<open>v.z\<close>) are \<open>vx\<close>, \<open>vy\<close>, \<open>vz\<close>.\<close>

datatype Vector = Vector (vx: real) (vy: real) (vz: real)

text \<open>\<^verbatim>\<open>a + b\<close>, \<^verbatim>\<open>a - b\<close>, \<^verbatim>\<open>a * s\<close> and \<^verbatim>\<open>a.length\<close> on vectors.\<close>

definition vadd :: "Vector \<Rightarrow> Vector \<Rightarrow> Vector" where
  "vadd a b = Vector (vx a + vx b) (vy a + vy b) (vz a + vz b)"

definition vsub :: "Vector \<Rightarrow> Vector \<Rightarrow> Vector" where
  "vsub a b = Vector (vx a - vx b) (vy a - vy b) (vz a - vz b)"

definition vscale :: "Vector \<Rightarrow> real \<Rightarrow> Vector" where
  "vscale a s = Vector (vx a * s) (vy a * s) (vz a * s)"

definition vlength :: "Vector \<Rightarrow> real" where
  "vlength a = sqrt (vx a * vx a + vy a * vy a + vz a * vz a)"

text \<open>The exceptions the module can raise by itself: a division whose divisor is zero.\<close>

datatype py_error = ZeroDivisionError

text \<open>Python's \<^verbatim>\<open>a / b\<close> on numbers.\<close>

definition py_div :: "real \<Rightarrow> real \<Rightarrow> py_error + real" where
  "py_div a b = (if b = 0 then Inl ZeroDivisionError else Inr (a / b))"

section \<open>Vector/orientation math\<close>

text \<open>The two local helpers of \<^verbatim>\<open>set_direction\<close> and \<^verbatim>\<open>math.degrees\<close>.\<close>

definition length_vec :: "Vector \<Rightarrow> real" where
  "length_vec vec = sqrt (vx vec * vx vec + vy vec * vy vec + vz vec * vz vec)"

definition v_clamp :: "real \<Rightarrow> real \<Rightarrow> real \<Rightarrow> real" where
  "v_clamp num minimum maximum =
     (if num < minimum then minimum
      else if num > maximum then maximum
      else num)"

definition degrees :: "real \<Rightarrow> real" where
  "degrees r = r * (180 / pi)"

text \<open>
  \<^verbatim>\<open>set_direction(forward)\<close> returns the triple \<^verbatim>\<open>(pitch, roll, yaw)\<close>. Both divisions
  go through \<open>py_div\<close>; \<^verbatim>\<open>math.sqrt\<close> is applied to a sum of squares and
  \<^verbatim>\<open>math.asin\<close> to a clamped value, so neither can raise. The sum \<open>angle + 360\<close> is
  exact here; in the code it is a double addition, which rounds to the nearest double.
\<close>

definition set_direction :: "Vector \<Rightarrow> py_error + (real \<times> real \<times> real)" where
  "set_direction forward =
     (let epsilon = 1 / 10000;
          len = length_vec forward
      in if len < epsilon then Inr (0, 0, 0)
         else
           (case py_div (vy forward) len of
              Inl e \<Rightarrow> Inl e
            | Inr sine \<Rightarrow>
                (let roll = 0;
                     pitch = degrees (arcsin (v_clamp sine (- 1) 1))
                 in if \<bar>vz forward\<bar> < epsilon then
                      (if vx forward < 0 then Inr (pitch, roll, 90)
                       else if vx forward > 0 then Inr (pitch, roll, 270)
                       else Inr (pitch, roll, 0))
                    else
                      (case py_div (vx forward) (vz forward) of
                         Inl e \<Rightarrow> Inl e
                       | Inr ratio \<Rightarrow>
                           (let angle = degrees (arctan ratio);
                                yaw = (if vz forward < 0
                                       then angle + (if angle < 0 then 360 else 0)
                                       else angle + 180)
                            in Inr (pitch, roll, yaw))))))"

section \<open>Bezier evaluator\<close>

definition compute_bernstein :: "real \<Rightarrow> real \<times> real \<times> real \<times> real" where
  "compute_bernstein float_t =
     (let q = 1 - float_t;
          f1 = q * q * q;
          f2 = 3 * float_t * q * q;
          f3 = 3 * float_t * float_t * q;
          f4 = float_t * float_t * float_t
      in (f1, f2, f3, f4))"

definition evaluate_bezier_curve ::
  "Vector \<Rightarrow> Vector \<Rightarrow> Vector \<Rightarrow> Vector \<Rightarrow> real \<Rightarrow> Vector" where
  "evaluate_bezier_curve vec1 vec2 vec3 vec4 float_t =
     (case compute_bernstein float_t of (c0, c1, c2, c3) \<Rightarrow>
        let f1 = c0 * vx vec1 + c1 * vx vec2 + c2 * vx vec3 + c3 * vx vec4;
            f2 = c0 * vy vec1 + c1 * vy vec2 + c2 * vy vec3 + c3 * vy vec4;
            f3 = c0 * vz vec1 + c1 * vz vec2 + c2 * vz vec3 + c3 * vz vec4
        in Vector f1 f2 f3)"

section \<open>Smooth-curve builder\<close>

definition smooth_curve ::
  "Vector \<Rightarrow> Vector \<Rightarrow> Vector \<Rightarrow> Vector \<Rightarrow> real \<Rightarrow> Vector" where
  "smooth_curve point1 tang1 point2 tang2 coef =
     (let pp1 = point1;
          pp2 = vadd point1 tang1;
          pp3 = vsub point2 tang2;
          pp4 = point2;
          pos = evaluate_bezier_curve pp1 pp2 pp3 pp4 coef
      in pos)"

section \<open>Arc-length estimator\<close>

text \<open>
  The loop of \<^verbatim>\<open>compute_smooth_curve_length\<close>: the \<open>nat\<close> argument counts the
  iterations of \<^verbatim>\<open>range(measure_steps)\<close> still to run; \<open>coef\<close>, \<open>lenth\<close> and
  \<open>start_pos\<close> are the loop's variables. The sums of \<open>coef\<close> and \<open>lenth\<close> and the
  chord lengths are exact here; the code accumulates them in floating point.
\<close>

fun length_loop ::
  "Vector \<Rightarrow> Vector \<Rightarrow> Vector \<Rightarrow> Vector \<Rightarrow> real \<Rightarrow> nat \<Rightarrow> real \<Rightarrow> real \<Rightarrow> Vector \<Rightarrow> real" where
  "length_loop point1 tang1 point2 tang2 step_size 0 coef lenth start_pos = lenth"
| "length_loop point1 tang1 point2 tang2 step_size (Suc n) coef lenth start_pos =
     (let cpos = smooth_curve point1 tang1 point2 tang2 coef;
          le = vsub start_pos cpos
      in length_loop point1 tang1 point2 tang2 step_size n
           (coef + step_size) (lenth + vlength le) cpos)"

text \<open>\<^verbatim>\<open>range(n)\<close> is empty for \<open>n \<le> 0\<close>: it runs \<open>nat n\<close> times.\<close>

definition compute_smooth_curve_length ::
  "Vector \<Rightarrow> Vector \<Rightarrow> Vector \<Rightarrow> Vector \<Rightarrow> int \<Rightarrow> py_error + real" where
  "compute_smooth_curve_length point1 tang1 point2 tang2 measure_steps =
     (case py_div 1 (real_of_int measure_steps) of
        Inl e \<Rightarrow> Inl e
      | Inr step_size \<Rightarrow>
          Inr (length_loop point1 tang1 point2 tang2 step_size (nat measure_steps)
                 step_size 0 point1))"

section \<open>Curve discretizer\<close>

text \<open>
  The loop of \<^verbatim>\<open>compute_curve\<close> over the segments still to visit; \<open>curve_points\<close> is
  the list built so far. \<^verbatim>\<open>segment / curve_steps\<close> is Python 3's true division.
\<close>

fun curve_loop ::
  "Vector \<Rightarrow> Vector \<Rightarrow> Vector \<Rightarrow> Vector \<Rightarrow> real \<Rightarrow> int \<Rightarrow> int list \<Rightarrow> Vector list
     \<Rightarrow> py_error + Vector list" where
  "curve_loop point1 tang1 point2 tang2 le curve_steps [] curve_points = Inr curve_points"
| "curve_loop point1 tang1 point2 tang2 le curve_steps (segment # segments) curve_points =
     (case py_div (real_of_int segment) (real_of_int curve_steps) of
        Inl e \<Rightarrow> Inl e
      | Inr coef \<Rightarrow>
          (let pos = smooth_curve point1 (vscale tang1 (le / 3)) point2 (vscale tang2 (le / 3)) coef
           in curve_loop point1 tang1 point2 tang2 le curve_steps segments (curve_points @ [pos])))"

text \<open>
  \<^verbatim>\<open>compute_curve(obj_0, point1, obj_1, point2, curve_steps)\<close>. The two objects are used
  only for \<^verbatim>\<open>obj.matrix_world.to_quaternion() * Vector((0, 1, 0))\<close>, a rotation done by
  Blender; the model takes the two rotated vectors \<open>tang1\<close> and \<open>tang2\<close> in their place
  and returns the list stored under \<^verbatim>\<open>'curve_points'\<close>.
\<close>

definition compute_curve ::
  "Vector \<Rightarrow> Vector \<Rightarrow> Vector \<Rightarrow> Vector \<Rightarrow> int \<Rightarrow> py_error + Vector list" where
  "compute_curve tang1 point1 tang2 point2 curve_steps =
     (case compute_smooth_curve_length point1 tang1 point2 tang2 300 of
        Inl e \<Rightarrow> Inl e
      | Inr le \<Rightarrow>
          (case curve_loop point1 tang1 point2 tang2 le curve_steps [0..curve_steps - 1] [] of
             Inl e \<Rightarrow> Inl e
           | Inr curve_points \<Rightarrow> Inr (curve_points @ [point2])))"

section \<open>Intersection detector\<close>

text \<open>
  Modelled from the spec: the curve record (\<^verbatim>\<open>io_scs_tools.internals.structure.SectionData\<close>,
  whose class is not part of the module). The spec describes it as a record with a
  "Length" scalar and the sub-records "Start" and "End" of its "Bezier" section, each
  with a "Position" and a "Direction" vector.
\<close>

record bezier_point =
  Position :: Vector
  Direction :: Vector

record curve =
  Length :: real
  Bezier_Start :: bezier_point
  Bezier_End :: bezier_point

text \<open>
  What one pass through the body of a loop does to the control flow: \<open>Continue\<close> goes
  on with the next iteration (for a whole loop: the loop ran to its end), \<open>Return r\<close>
  leaves \<^verbatim>\<open>curves_intersect\<close> with \<open>r\<close>, where \<open>None\<close> is Python's \<^verbatim>\<open>None\<close>.
\<close>

datatype flow = Continue | Return "Vector option"

definition denom :: "Vector \<Rightarrow> Vector \<Rightarrow> Vector \<Rightarrow> Vector \<Rightarrow> real" where
  "denom start1 end1 start2 end2 =
     ((vz end2 - vz start2) * (vx end1 - vx start1)) -
     ((vx end2 - vx start2) * (vz end1 - vz start1))"

definition nume_a :: "Vector \<Rightarrow> Vector \<Rightarrow> Vector \<Rightarrow> Vector \<Rightarrow> real" where
  "nume_a start1 end1 start2 end2 =
     ((vx end2 - vx start2) * (vz start1 - vz start2)) -
     ((vz end2 - vz start2) * (vx start1 - vx start2))"

definition nume_b :: "Vector \<Rightarrow> Vector \<Rightarrow> Vector \<Rightarrow> Vector \<Rightarrow> real" where
  "nume_b start1 end1 start2 end2 =
     ((vx end1 - vx start1) * (vz start1 - vz start2)) -
     ((vz end1 - vz start1) * (vx start1 - vx start2))"

text \<open>The body of the inner loop from the computation of \<^verbatim>\<open>denom\<close> on.\<close>

definition chord_test ::
  "int \<Rightarrow> int \<Rightarrow> int \<Rightarrow> Vector \<Rightarrow> Vector \<Rightarrow> Vector \<Rightarrow> Vector \<Rightarrow> py_error + flow" where
  "chord_test part_count i j start1 end1 start2 end2 =
     (let epsilon = 1 / 100 in
      if \<bar>denom start1 end1 start2 end2\<bar> < epsilon then Inr Continue
      else
        (case py_div (nume_a start1 end1 start2 end2) (denom start1 end1 start2 end2) of
           Inl e \<Rightarrow> Inl e
         | Inr mu_a \<Rightarrow>
             (case py_div (nume_b start1 end1 start2 end2) (denom start1 end1 start2 end2) of
                Inl e \<Rightarrow> Inl e
              | Inr mu_b \<Rightarrow>
                  if mu_a < 0 \<or> mu_a > 1 \<or> mu_b < 0 \<or> mu_b > 1 then Inr Continue
                  else if (mu_a < epsilon \<and> i = 0) \<or> (mu_b < epsilon \<and> j = 0)
                    then Inr (Return None)
                  else if (mu_a > 1 - epsilon \<and> i = part_count - 1) \<or>
                          (mu_b > 1 - epsilon \<and> j = part_count - 1)
                    then Inr (Return None)
                  else Inr (Return (Some (Vector
                         (vx start1 + mu_a * (vx end1 - vx start1))
                         ((vy start1 + vy end1 + vy start2 + vy end2) / 4)
                         (vz start1 + mu_a * (vz end1 - vz start1))))))))"

text \<open>
  The two parameters handed to \<^verbatim>\<open>smooth_curve\<close> for the chord that starts at position
  \<open>pos\<close>: \<^verbatim>\<open>pos / length\<close> and \<^verbatim>\<open>(pos + step) / length\<close>. The quotients are exact
  here; in the code each is a rounded double.
\<close>

definition chord_coefs :: "real \<Rightarrow> real \<Rightarrow> real \<Rightarrow> py_error + (real \<times> real)" where
  "chord_coefs len step pos =
     (case py_div pos len of
        Inl e \<Rightarrow> Inl e
      | Inr coef_start \<Rightarrow>
          (case py_div (pos + step) len of
             Inl e \<Rightarrow> Inl e
           | Inr coef_end \<Rightarrow> Inr (coef_start, coef_end)))"

text \<open>The two ends of that chord: \<^verbatim>\<open>smooth_curve\<close> on the curve's Bezier section.\<close>

definition chord :: "curve \<Rightarrow> real \<Rightarrow> real \<Rightarrow> real \<Rightarrow> py_error + (Vector \<times> Vector)" where
  "chord c len step pos =
     (case chord_coefs len step pos of
        Inl e \<Rightarrow> Inl e
      | Inr (coef_start, coef_end) \<Rightarrow>
          Inr (smooth_curve (Position (Bezier_Start c)) (Direction (Bezier_Start c))
                 (Position (Bezier_End c)) (Direction (Bezier_End c)) coef_start,
               smooth_curve (Position (Bezier_Start c)) (Direction (Bezier_Start c))
                 (Position (Bezier_End c)) (Direction (Bezier_End c)) coef_end))"

text \<open>The inner loop over the values of \<open>j\<close> still to visit, with its variable \<open>pos2\<close>.\<close>

fun inner_loop ::
  "curve \<Rightarrow> real \<Rightarrow> real \<Rightarrow> int \<Rightarrow> int \<Rightarrow> Vector \<Rightarrow> Vector \<Rightarrow> int list \<Rightarrow> real
     \<Rightarrow> py_error + flow" where
  "inner_loop curve2 length2 step2 part_count i start1 end1 [] pos2 = Inr Continue"
| "inner_loop curve2 length2 step2 part_count i start1 end1 (j # js) pos2 =
     (case chord curve2 length2 step2 pos2 of
        Inl e \<Rightarrow> Inl e
      | Inr (start2, end2) \<Rightarrow>
          (case chord_test part_count i j start1 end1 start2 end2 of
             Inl e \<Rightarrow> Inl e
           | Inr Continue \<Rightarrow>
               inner_loop curve2 length2 step2 part_count i start1 end1 js (pos2 + step2)
           | Inr (Return r) \<Rightarrow> Inr (Return r)))"

text \<open>The outer loop over the values of \<open>i\<close> still to visit, with its variable \<open>pos1\<close>.\<close>

fun outer_loop ::
  "curve \<Rightarrow> curve \<Rightarrow> real \<Rightarrow> real \<Rightarrow> real \<Rightarrow> real \<Rightarrow> int \<Rightarrow> int list \<Rightarrow> real
     \<Rightarrow> py_error + Vector option" where
  "outer_loop curve1 curve2 length1 length2 step1 step2 part_count [] pos1 = Inr None"
| "outer_loop curve1 curve2 length1 length2 step1 step2 part_count (i # is) pos1 =
     (case chord curve1 length1 step1 pos1 of
        Inl e \<Rightarrow> Inl e
      | Inr (start1, end1) \<Rightarrow>
          (case inner_loop curve2 length2 step2 part_count i start1 end1
                  [0..part_count - 1] 0 of
             Inl e \<Rightarrow> Inl e
           | Inr (Return r) \<Rightarrow> Inr r
           | Inr Continue \<Rightarrow>
               outer_loop curve1 curve2 length1 length2 step1 step2 part_count is
                 (pos1 + step1)))"

definition curves_intersect :: "curve \<Rightarrow> curve \<Rightarrow> int \<Rightarrow> py_error + Vector option" where
  "curves_intersect curve1 curve2 part_count =
     (let length1 = Length curve1;
          length2 = Length curve2
      in case py_div length1 (real_of_int part_count) of
           Inl e \<Rightarrow> Inl e
         | Inr step1 \<Rightarrow>
             (case py_div length2 (real_of_int part_count) of
                Inl e \<Rightarrow> Inl e
              | Inr step2 \<Rightarrow>
                  outer_loop curve1 curve2 length1 length2 step1 step2 part_count
                    [0..part_count - 1] 0))"

subsection \<open>The detector on uniform parameters\<close>

text \<open>
  A second description of the scan, for comparison with the loops of
  \<open>curves_intersect\<close>: chord \<open>i\<close> of a curve runs from Bezier parameter
  \<open>i / part_count\<close> to \<open>(i + 1) / part_count\<close>, with no reference to the curve's
  "Length", and the pairs \<open>(i, j)\<close> are examined in the order they are listed.
\<close>

definition chord_uniform :: "curve \<Rightarrow> int \<Rightarrow> int \<Rightarrow> Vector \<times> Vector" where
  "chord_uniform c part_count i =
     (smooth_curve (Position (Bezier_Start c)) (Direction (Bezier_Start c))
        (Position (Bezier_End c)) (Direction (Bezier_End c))
        (real_of_int i / real_of_int part_count),
      smooth_curve (Position (Bezier_Start c)) (Direction (Bezier_Start c))
        (Position (Bezier_End c)) (Direction (Bezier_End c))
        ((real_of_int i + 1) / real_of_int part_count))"

definition pair_test :: "curve \<Rightarrow> curve \<Rightarrow> int \<Rightarrow> int \<Rightarrow> int \<Rightarrow> py_error + flow" where
  "pair_test curve1 curve2 part_count i j =
     (case chord_uniform curve1 part_count i of
        (start1, end1) \<Rightarrow>
          (case chord_uniform curve2 part_count j of
             (start2, end2) \<Rightarrow> chord_test part_count i j start1 end1 start2 end2))"

fun scan_uniform :: "curve \<Rightarrow> curve \<Rightarrow> int \<Rightarrow> (int \<times> int) list \<Rightarrow> py_error + Vector option" where
  "scan_uniform curve1 curve2 part_count [] = Inr None"
| "scan_uniform curve1 curve2 part_count ((i, j) # pairs) =
     (case pair_test curve1 curve2 part_count i j of
        Inl e \<Rightarrow> Inl e
      | Inr Continue \<Rightarrow> scan_uniform curve1 curve2 part_count pairs
      | Inr (Return r) \<Rightarrow> Inr r)"

subsection \<open>Two example curves\<close>

text \<open>
  Two straight curves that meet in a T: the first runs along \<open>x\<close> from the origin, the
  second comes down along \<open>z\<close> and ends at the origin. The tangents are a third of
  the length, so the Bezier parameter runs along each line at constant speed.
\<close>

abbreviation example_curve1 :: curve where
  "example_curve1 \<equiv>
     \<lparr>Length = 2,
      Bezier_Start = \<lparr>Position = Vector 0 0 0, Direction = Vector (2 / 3) 0 0\<rparr>,
      Bezier_End = \<lparr>Position = Vector 2 0 0, Direction = Vector (2 / 3) 0 0\<rparr>\<rparr>"

abbreviation example_curve2 :: curve where
  "example_curve2 \<equiv>
     \<lparr>Length = 4,
      Bezier_Start = \<lparr>Position = Vector 0 0 4, Direction = Vector 0 0 (- (4 / 3))\<rparr>,
      Bezier_End = \<lparr>Position = Vector 0 0 0, Direction = Vector 0 0 (- (4 / 3))\<rparr>\<rparr>"

section \<open>Properties of the orientation decomposition\<close>

lemma degrees_arcsin_clamp:
  "- 90 \<le> degrees (arcsin (v_clamp s (- 1) 1)) \<and> degrees (arcsin (v_clamp s (- 1) 1)) \<le> 90"
proof -
  have c: "- 1 \<le> v_clamp s (- 1) 1" "v_clamp s (- 1) 1 \<le> 1"
    by (simp_all add: v_clamp_def)
  have "- (pi / 2) \<le> arcsin (v_clamp s (- 1) 1)" "arcsin (v_clamp s (- 1) 1) \<le> pi / 2"
    using arcsin_bounded [OF c] by simp_all
  then show ?thesis
    using pi_gt_zero by (simp add: degrees_def field_simps)
qed

lemma degrees_arctan: "- 90 < degrees (arctan r) \<and> degrees (arctan r) < 90"
  using arctan_lbound [of r] arctan_ubound [of r] pi_gt_zero
  by (simp add: degrees_def field_simps)

text \<open>
  Claim C7. For a forward vector of length at least 0.0001, \<open>set_direction\<close> returns
  (it does not raise), and its yaw is: when \<open>|forward.z| < 0.0001\<close>, 90 for
  \<open>forward.x < 0\<close>, 270 for \<open>forward.x > 0\<close> and 0 for \<open>forward.x = 0\<close>; otherwise, with
  \<open>angle\<close> the arctangent of \<open>forward.x / forward.z\<close> in degrees, \<open>angle + 180\<close> when
  \<open>forward.z \<ge> 0\<close>, and \<open>angle + 360\<close> (for \<open>angle < 0\<close>) or \<open>angle + 0\<close> when
  \<open>forward.z < 0\<close>.
\<close>

theorem set_direction_yaw:
  assumes "1 / 10000 \<le> length_vec forward"
  shows "case set_direction forward of
           Inl e \<Rightarrow> False
         | Inr (pitch, roll, yaw) \<Rightarrow>
             yaw =
               (if \<bar>vz forward\<bar> < 1 / 10000 then
                  (if vx forward < 0 then 90 else if vx forward > 0 then 270 else 0)
                else
                  (let angle = degrees (arctan (vx forward / vz forward))
                   in if vz forward \<ge> 0 then angle + 180
                      else if angle < 0 then angle + 360 else angle + 0))"
  using assms
  by (auto simp add: set_direction_def py_div_def Let_def)

theorem set_direction_yaw_witness:
  "1 / 10000 \<le> length_vec (Vector 0 0 1) \<and>
   (case set_direction (Vector 0 0 1) of
      Inl e \<Rightarrow> False
    | Inr (pitch, roll, yaw) \<Rightarrow> yaw = 180)"
  using set_direction_yaw [of "Vector 0 0 1"]
  by (auto simp add: length_vec_def degrees_def split: sum.splits)

text \<open>
  In exact arithmetic \<open>set_direction\<close> returns a pitch between -90 and 90 degrees and
  a yaw of at least 0 and less than 360 degrees. The strict bound rests on the exact
  sum \<open>angle + 360\<close> for a negative \<open>angle\<close>.
\<close>

lemma set_direction_ranges_exact:
  "case set_direction forward of
     Inl e \<Rightarrow> False
   | Inr (pitch, roll, yaw) \<Rightarrow> - 90 \<le> pitch \<and> pitch \<le> 90 \<and> 0 \<le> yaw \<and> yaw < 360"
  using degrees_arcsin_clamp [of "vy forward / length_vec forward"]
        degrees_arctan [of "vx forward / vz forward"]
  by (auto simp add: set_direction_def py_div_def Let_def)

lemma arctan_le_self_nonneg:
  assumes "0 \<le> x"
  shows "arctan x \<le> x"
proof -
  have "0 - arctan 0 \<le> x - arctan x"
  proof (rule DERIV_nonneg_imp_nondecreasing [OF assms])
    fix t :: real
    have "((\<lambda>t. t - arctan t) has_real_derivative (1 - 1 / (1 + t\<^sup>2))) (at t)"
      by (auto intro!: derivative_eq_intros simp: divide_inverse)
    moreover have "0 < 1 + t\<^sup>2"
      by (simp add: add_pos_nonneg)
    then have "0 \<le> 1 - 1 / (1 + t\<^sup>2)"
      by (simp add: field_simps)
    ultimately show "\<exists>y. ((\<lambda>t. t - arctan t) has_real_derivative y) (at t) \<and> 0 \<le> y"
      by blast
  qed
  then show ?thesis by simp
qed

lemma degrees_arctan_small:
  assumes "0 < x" "x \<le> 1 / 2 ^ 52"
  shows "- (1 / 2 ^ 45) < degrees (arctan (- x)) \<and> degrees (arctan (- x)) < 0"
proof -
  have pos: "0 < arctan x"
    using assms(1) by simp
  have le: "arctan x \<le> x"
    using assms(1) by (intro arctan_le_self_nonneg) simp
  have "arctan x * 180 < arctan x * (128 * pi)"
    using pos pi_ge_two by (intro mult_strict_left_mono) simp_all
  also have "\<dots> \<le> x * (128 * pi)"
    using le pi_gt_zero by (intro mult_right_mono) simp_all
  also have "\<dots> \<le> (1 / 2 ^ 52) * (128 * pi)"
    using assms(2) pi_gt_zero by (intro mult_right_mono) simp_all
  finally have "arctan x * 180 < pi / 2 ^ 45"
    by simp
  then have "arctan x * (180 / pi) < 1 / 2 ^ 45"
    using pi_gt_zero by (simp add: field_simps)
  moreover have "0 < arctan x * (180 / pi)"
    using pos pi_gt_zero by simp
  ultimately show ?thesis
    by (simp add: degrees_def arctan_minus)
qed

text \<open>
  Claim C10 (pitch from -90 to 90, yaw at least 0 and less than 360) is what the
  code's comment intends, the normalised yaw lying in the open range (270, 360), and
  the code misses it in its double arithmetic. For the forward vectors
  \<open>(1e-20, 0, -1)\<close> and \<open>(sin pi, 0, cos pi) = (1.2246467991473532e-16, 0, -1)\<close> the
  exact yaw \<open>angle + 360\<close> lies strictly between \<open>360 - 2^-45\<close> and 360. The doubles
  next to 360 are \<open>360 - 2^-44\<close> and 360 itself, so the sum is nearer to 360 than to
  any other double, and the code's rounded addition returns the yaw 360.0.
\<close>

theorem set_direction_yaw_rounds_to_360:
  "(case set_direction (Vector (1 / 10 ^ 20) 0 (- 1)) of
      Inl e \<Rightarrow> False
    | Inr (pitch, roll, yaw) \<Rightarrow> 360 - 1 / 2 ^ 45 < yaw \<and> yaw < 360) \<and>
   (case set_direction (Vector (12246467991473532 / 10 ^ 32) 0 (- 1)) of
      Inl e \<Rightarrow> False
    | Inr (pitch, roll, yaw) \<Rightarrow> 360 - 1 / 2 ^ 45 < yaw \<and> yaw < 360)"
proof -
  have yaw: "case set_direction (Vector x 0 (- 1)) of
               Inl e \<Rightarrow> False
             | Inr (pitch, roll, yaw) \<Rightarrow> 360 - 1 / 2 ^ 45 < yaw \<and> yaw < 360"
    if small: "0 < x" "x \<le> 1 / 2 ^ 52" for x
  proof -
    have "sqrt 1 \<le> length_vec (Vector x 0 (- 1))"
      unfolding length_vec_def by (intro real_sqrt_le_mono) simp
    then have "\<not> length_vec (Vector x 0 (- 1)) < 1 / 10000"
      by simp
    then show ?thesis
      using degrees_arctan_small [OF small]
      by (simp add: set_direction_def py_div_def Let_def)
  qed
  have "case set_direction (Vector (1 / 10 ^ 20) 0 (- 1)) of
          Inl e \<Rightarrow> False
        | Inr (pitch, roll, yaw) \<Rightarrow> 360 - 1 / 2 ^ 45 < yaw \<and> yaw < 360"
    by (rule yaw) simp_all
  moreover have "case set_direction (Vector (12246467991473532 / 10 ^ 32) 0 (- 1)) of
          Inl e \<Rightarrow> False
        | Inr (pitch, roll, yaw) \<Rightarrow> 360 - 1 / 2 ^ 45 < yaw \<and> yaw < 360"
    by (rule yaw) simp_all
  ultimately show ?thesis by simp
qed

section \<open>Properties of the Bezier evaluator\<close>

text \<open>
  Claim C8. For every real \<open>t\<close>, inside or outside the unit interval, the four cubic
  Bernstein coefficients returned by \<open>compute_bernstein\<close> sum to exactly 1.
\<close>

theorem compute_bernstein_sum:
  "(case compute_bernstein t of (f1, f2, f3, f4) \<Rightarrow> f1 + f2 + f3 + f4) = 1"
  by (simp add: compute_bernstein_def Let_def algebra_simps)

text \<open>
  Claim C5. For all waypoints and tangents, \<open>smooth_curve\<close> at \<open>coef = 0\<close> is the first
  waypoint and at \<open>coef = 1\<close> the second one.
\<close>

theorem smooth_curve_endpoints:
  "smooth_curve point1 tang1 point2 tang2 0 = point1 \<and>
   smooth_curve point1 tang1 point2 tang2 1 = point2"
  by (simp add: smooth_curve_def evaluate_bezier_curve_def compute_bernstein_def Let_def)

lemma convex_combination_bounds:
  fixes a b c d :: real
  assumes "0 \<le> w0" "0 \<le> w1" "0 \<le> w2" "0 \<le> w3" "w0 + w1 + w2 + w3 = 1"
  shows "min (min a b) (min c d) \<le> w0 * a + w1 * b + w2 * c + w3 * d"
    and "w0 * a + w1 * b + w2 * c + w3 * d \<le> max (max a b) (max c d)"
proof -
  let ?lo = "min (min a b) (min c d)" and ?hi = "max (max a b) (max c d)"
  have "?lo = w0 * ?lo + w1 * ?lo + w2 * ?lo + w3 * ?lo"
    using assms(5) by (simp add: distrib_right [symmetric])
  also have "\<dots> \<le> w0 * a + w1 * b + w2 * c + w3 * d"
    by (intro add_mono mult_left_mono assms) simp_all
  finally show "?lo \<le> w0 * a + w1 * b + w2 * c + w3 * d" .
  have "w0 * a + w1 * b + w2 * c + w3 * d \<le> w0 * ?hi + w1 * ?hi + w2 * ?hi + w3 * ?hi"
    by (intro add_mono mult_left_mono assms) simp_all
  also have "\<dots> = ?hi"
    using assms(5) by (simp add: distrib_right [symmetric])
  finally show "w0 * a + w1 * b + w2 * c + w3 * d \<le> ?hi" .
qed

lemma compute_bernstein_nonneg:
  assumes "0 \<le> t" "t \<le> 1"
  shows "case compute_bernstein t of (f1, f2, f3, f4) \<Rightarrow> 0 \<le> f1 \<and> 0 \<le> f2 \<and> 0 \<le> f3 \<and> 0 \<le> f4"
  using assms by (simp add: compute_bernstein_def Let_def)

lemma bezier_coordinate_bounds:
  fixes a b c d :: real
  assumes "0 \<le> t" "t \<le> 1" "compute_bernstein t = (c0, c1, c2, c3)"
  shows "min (min a b) (min c d) \<le> c0 * a + c1 * b + c2 * c + c3 * d \<and>
         c0 * a + c1 * b + c2 * c + c3 * d \<le> max (max a b) (max c d)"
proof -
  have nn: "0 \<le> c0" "0 \<le> c1" "0 \<le> c2" "0 \<le> c3"
    using compute_bernstein_nonneg [OF assms(1,2)] assms(3) by simp_all
  have "c0 + c1 + c2 + c3 = 1"
    using assms(3) by (auto simp add: compute_bernstein_def Let_def algebra_simps)
  from convex_combination_bounds [OF nn this] show ?thesis by blast
qed

text \<open>
  Claim C9. For every \<open>coef\<close> between 0 and 1 and all waypoints and tangents, each
  coordinate of the point of \<open>smooth_curve\<close> lies between the least and the greatest of
  that coordinate over the four control points \<open>point1\<close>, \<open>point1 + tang1\<close>,
  \<open>point2 - tang2\<close> and \<open>point2\<close>.
\<close>

theorem smooth_curve_convex_hull:
  assumes "0 \<le> coef" "coef \<le> 1"
  shows "let pos = smooth_curve point1 tang1 point2 tang2 coef;
             pp1 = point1; pp2 = vadd point1 tang1; pp3 = vsub point2 tang2; pp4 = point2
         in min (min (vx pp1) (vx pp2)) (min (vx pp3) (vx pp4)) \<le> vx pos \<and>
            vx pos \<le> max (max (vx pp1) (vx pp2)) (max (vx pp3) (vx pp4)) \<and>
            min (min (vy pp1) (vy pp2)) (min (vy pp3) (vy pp4)) \<le> vy pos \<and>
            vy pos \<le> max (max (vy pp1) (vy pp2)) (max (vy pp3) (vy pp4)) \<and>
            min (min (vz pp1) (vz pp2)) (min (vz pp3) (vz pp4)) \<le> vz pos \<and>
            vz pos \<le> max (max (vz pp1) (vz pp2)) (max (vz pp3) (vz pp4))"
proof -
  obtain c0 c1 c2 c3 where c: "compute_bernstein coef = (c0, c1, c2, c3)"
    by (cases "compute_bernstein coef") auto
  note b = bezier_coordinate_bounds [OF assms c]
  show ?thesis
    unfolding Let_def smooth_curve_def evaluate_bezier_curve_def c
    using b [of "vx point1" "vx (vadd point1 tang1)" "vx (vsub point2 tang2)" "vx point2"]
          b [of "vy point1" "vy (vadd point1 tang1)" "vy (vsub point2 tang2)" "vy point2"]
          b [of "vz point1" "vz (vadd point1 tang1)" "vz (vsub point2 tang2)" "vz point2"]
    by simp
qed

theorem smooth_curve_convex_hull_witness:
  "(0::real) \<le> 1 / 2 \<and> (1 / 2 :: real) \<le> 1 \<and>
   0 \<le> vx (smooth_curve (Vector 0 0 0) (Vector 1 2 0) (Vector 4 0 0) (Vector 1 (- 2) 0) (1 / 2)) \<and>
   vx (smooth_curve (Vector 0 0 0) (Vector 1 2 0) (Vector 4 0 0) (Vector 1 (- 2) 0) (1 / 2)) \<le> 4 \<and>
   0 \<le> vy (smooth_curve (Vector 0 0 0) (Vector 1 2 0) (Vector 4 0 0) (Vector 1 (- 2) 0) (1 / 2)) \<and>
   vy (smooth_curve (Vector 0 0 0) (Vector 1 2 0) (Vector 4 0 0) (Vector 1 (- 2) 0) (1 / 2)) \<le> 2"
  using smooth_curve_convex_hull [of "1 / 2" "Vector 0 0 0" "Vector 1 2 0" "Vector 4 0 0" "Vector 1 (- 2) 0"]
  by (simp add: Let_def vadd_def vsub_def)

section \<open>Properties of the discretizer and of the step counts\<close>

lemma curve_loop_map:
  assumes "curve_steps \<noteq> 0"
  shows "curve_loop point1 tang1 point2 tang2 le curve_steps segments curve_points =
     Inr (curve_points @
          map (\<lambda>segment. smooth_curve point1 (vscale tang1 (le / 3)) point2 (vscale tang2 (le / 3))
                 (real_of_int segment / real_of_int curve_steps)) segments)"
  using assms
  by (induction segments arbitrary: curve_points) (simp_all add: py_div_def)

lemma compute_smooth_curve_length_returns:
  assumes "measure_steps \<noteq> 0"
  shows "\<exists>le. compute_smooth_curve_length point1 tang1 point2 tang2 measure_steps = Inr le"
  using assms by (simp add: compute_smooth_curve_length_def py_div_def)

text \<open>
  Claim C6. For every \<open>curve_steps \<ge> 1\<close>, \<open>compute_curve\<close> returns exactly
  \<open>curve_steps + 1\<close> points; the last one is \<open>point2\<close>, and the first one is
  \<open>smooth_curve\<close> at \<open>coef = 0\<close> (with the tangents scaled by a third of the
  estimated length), which is \<open>point1\<close>.
\<close>

theorem compute_curve_points:
  assumes "1 \<le> curve_steps"
  shows "case compute_curve tang1 point1 tang2 point2 curve_steps of
           Inl e \<Rightarrow> False
         | Inr curve_points \<Rightarrow>
             length curve_points = nat curve_steps + 1 \<and>
             last curve_points = point2 \<and>
             (\<exists>le. compute_smooth_curve_length point1 tang1 point2 tang2 300 = Inr le \<and>
                curve_points ! 0 =
                  smooth_curve point1 (vscale tang1 (le / 3)) point2 (vscale tang2 (le / 3)) 0) \<and>
             curve_points ! 0 = point1"
proof -
  have "\<exists>le. compute_smooth_curve_length point1 tang1 point2 tang2 300 = Inr le"
    by (rule compute_smooth_curve_length_returns) simp
  then obtain le where le: "compute_smooth_curve_length point1 tang1 point2 tang2 300 = Inr le"
    by blast
  have ne: "curve_steps \<noteq> 0" using assms by simp
  let ?f = "\<lambda>segment. smooth_curve point1 (vscale tang1 (le / 3)) point2 (vscale tang2 (le / 3))
                 (real_of_int segment / real_of_int curve_steps)"
  have cc: "compute_curve tang1 point1 tang2 point2 curve_steps =
              Inr (map ?f [0..curve_steps - 1] @ [point2])"
    by (simp add: compute_curve_def le curve_loop_map [OF ne])
  have len: "length (map ?f [0..curve_steps - 1] @ [point2]) = nat curve_steps + 1"
    using assms by simp
  have up: "[0..curve_steps - 1] = 0 # [1..curve_steps - 1]"
    using assms upto_rec1 [of 0 "curve_steps - 1"] by simp
  have first: "(map ?f [0..curve_steps - 1] @ [point2]) ! 0 = ?f 0"
    by (simp add: up)
  have start: "?f 0 = point1"
    by (simp add: smooth_curve_def evaluate_bezier_curve_def compute_bernstein_def Let_def)
  show ?thesis
    unfolding cc using len first start le by simp
qed

theorem compute_curve_points_witness:
  "(1::int) \<le> 2 \<and>
   (case compute_curve (Vector 0 1 0) (Vector 0 0 0) (Vector 0 1 0) (Vector 4 0 0) 2 of
      Inl e \<Rightarrow> False
    | Inr curve_points \<Rightarrow>
        length curve_points = 3 \<and> last curve_points = Vector 4 0 0 \<and>
        curve_points ! 0 = Vector 0 0 0)"
  using compute_curve_points [where curve_steps = 2 and ?tang1.0 = "Vector 0 1 0"
      and ?point1.0 = "Vector 0 0 0" and ?tang2.0 = "Vector 0 1 0" and ?point2.0 = "Vector 4 0 0"]
  by (auto split: sum.splits)

text \<open>
  Claim C3, amended. A step count or part count of zero raises \<open>ZeroDivisionError\<close> (from
  the division by the count). A negative \<open>measure_steps\<close> raises nothing: the loop
  does not run and the estimate returned is 0. A negative \<open>part_count\<close> raises nothing
  either: no chord pair is examined and the result is \<open>None\<close>.
\<close>

theorem nonpositive_step_counts:
  "compute_smooth_curve_length point1 tang1 point2 tang2 0 = Inl ZeroDivisionError \<and>
   curves_intersect curve1 curve2 0 = Inl ZeroDivisionError \<and>
   (measure_steps < 0 \<longrightarrow>
      compute_smooth_curve_length point1 tang1 point2 tang2 measure_steps = Inr 0) \<and>
   (part_count < 0 \<longrightarrow> curves_intersect curve1 curve2 part_count = Inr None)"
  by (simp add: compute_smooth_curve_length_def curves_intersect_def py_div_def Let_def)

text \<open>
  Claim C3 as stated (negative counts signal an error) fails: with \<open>measure_steps = -1\<close>
  the estimator returns 0, and with \<open>part_count = -1\<close> the detector returns \<open>None\<close>.
\<close>

theorem negative_counts_counterexample:
  "compute_smooth_curve_length (Vector 0 0 0) (Vector 1 0 0) (Vector 4 0 0) (Vector 1 0 0) (- 1)
     = Inr 0 \<and>
   curves_intersect
     \<lparr>Length = 4,
       Bezier_Start = \<lparr>Position = Vector 0 0 0, Direction = Vector 1 0 0\<rparr>,
       Bezier_End = \<lparr>Position = Vector 4 0 0, Direction = Vector 1 0 0\<rparr>\<rparr>
     \<lparr>Length = 4,
       Bezier_Start = \<lparr>Position = Vector 2 0 (- 2), Direction = Vector 0 0 1\<rparr>,
       Bezier_End = \<lparr>Position = Vector 2 0 2, Direction = Vector 0 0 1\<rparr>\<rparr>
     (- 1) = Inr None"
  by (simp add: compute_smooth_curve_length_def curves_intersect_def py_div_def Let_def)

theorem nonpositive_step_counts_witness:
  "(- 2 :: int) < 0 \<and> (- 3 :: int) < 0 \<and>
   compute_smooth_curve_length (Vector 0 0 0) (Vector 1 0 0) (Vector 4 0 0) (Vector 1 0 0) (- 2)
     = Inr 0 \<and>
   curves_intersect
     \<lparr>Length = 4,
       Bezier_Start = \<lparr>Position = Vector 0 0 0, Direction = Vector 1 0 0\<rparr>,
       Bezier_End = \<lparr>Position = Vector 4 0 0, Direction = Vector 1 0 0\<rparr>\<rparr>
     \<lparr>Length = 4,
       Bezier_Start = \<lparr>Position = Vector 2 0 (- 2), Direction = Vector 0 0 1\<rparr>,
       Bezier_End = \<lparr>Position = Vector 2 0 2, Direction = Vector 0 0 1\<rparr>\<rparr>
     (- 3) = Inr None"
  using nonpositive_step_counts [of "Vector 0 0 0" "Vector 1 0 0" "Vector 4 0 0" "Vector 1 0 0"
     "\<lparr>Length = 4,
       Bezier_Start = \<lparr>Position = Vector 0 0 0, Direction = Vector 1 0 0\<rparr>,
       Bezier_End = \<lparr>Position = Vector 4 0 0, Direction = Vector 1 0 0\<rparr>\<rparr>"
     "\<lparr>Length = 4,
       Bezier_Start = \<lparr>Position = Vector 2 0 (- 2), Direction = Vector 0 0 1\<rparr>,
       Bezier_End = \<lparr>Position = Vector 2 0 2, Direction = Vector 0 0 1\<rparr>\<rparr>"
     "- 2" "- 3"]
  by simp

section \<open>Properties of the arc-length estimator\<close>

lemma sqrt_three_squares_triangle:
  "sqrt ((a + a')\<^sup>2 + (b + b')\<^sup>2 + (c + c')\<^sup>2)
     \<le> sqrt (a\<^sup>2 + b\<^sup>2 + c\<^sup>2) + sqrt (a'\<^sup>2 + b'\<^sup>2 + c'\<^sup>2)"
proof -
  let ?u = "sqrt (a\<^sup>2 + b\<^sup>2)" and ?v = "sqrt (a'\<^sup>2 + b'\<^sup>2)"
  let ?w = "sqrt ((a + a')\<^sup>2 + (b + b')\<^sup>2)"
  have w: "0 \<le> ?w" "?w \<le> ?u + ?v"
    by (simp_all add: real_sqrt_sum_squares_triangle_ineq)
  then have "?w\<^sup>2 \<le> (?u + ?v)\<^sup>2"
    by (intro power_mono) simp_all
  then have "sqrt (?w\<^sup>2 + (c + c')\<^sup>2) \<le> sqrt ((?u + ?v)\<^sup>2 + (c + c')\<^sup>2)"
    by simp
  also have "\<dots> \<le> sqrt (?u\<^sup>2 + c\<^sup>2) + sqrt (?v\<^sup>2 + c'\<^sup>2)"
    by (rule real_sqrt_sum_squares_triangle_ineq)
  finally show ?thesis by simp
qed

lemma vlength_triangle:
  "vlength (vsub a c) \<le> vlength (vsub a b) + vlength (vsub b c)"
  using sqrt_three_squares_triangle
    [of "vx a - vx b" "vx b - vx c" "vy a - vy b" "vy b - vy c" "vz a - vz b" "vz b - vz c"]
  by (simp add: vlength_def vsub_def power2_eq_square)

lemma vlength_polyline:
  "vlength (vsub (g a) (g (a + c))) \<le> (\<Sum>j<c. vlength (vsub (g (a + j)) (g (a + Suc j))))"
proof (induction c)
  case 0
  show ?case by (simp add: vlength_def vsub_def)
next
  case (Suc c)
  have "vlength (vsub (g a) (g (a + Suc c)))
          \<le> vlength (vsub (g a) (g (a + c))) + vlength (vsub (g (a + c)) (g (a + Suc c)))"
    by (rule vlength_triangle)
  with Suc show ?case by simp
qed

lemma sum_lessThan_split:
  fixes f :: "nat \<Rightarrow> real"
  shows "(\<Sum>j<m + c. f j) = (\<Sum>j<m. f j) + (\<Sum>j<c. f (m + j))"
  by (induction c) (simp_all add: add.assoc)

lemma polyline_refinement:
  "(\<Sum>k<n. vlength (vsub (g (k * c)) (g (Suc k * c))))
     \<le> (\<Sum>j<n * c. vlength (vsub (g j) (g (Suc j))))"
proof (induction n)
  case 0
  show ?case by simp
next
  case (Suc n)
  have "vlength (vsub (g (n * c)) (g (Suc n * c)))
          \<le> (\<Sum>j<c. vlength (vsub (g (n * c + j)) (g (Suc (n * c + j)))))"
    using vlength_polyline [of g "n * c" c] by (simp add: add.commute)
  moreover have "(\<Sum>j<Suc n * c. vlength (vsub (g j) (g (Suc j))))
      = (\<Sum>j<n * c. vlength (vsub (g j) (g (Suc j))))
        + (\<Sum>j<c. vlength (vsub (g (n * c + j)) (g (Suc (n * c + j)))))"
    using sum_lessThan_split [of "\<lambda>j. vlength (vsub (g j) (g (Suc j)))" "n * c" c]
    by (simp add: add.commute)
  ultimately show ?case using Suc by simp
qed

lemma length_loop_sum:
  "length_loop point1 tang1 point2 tang2 s n (a + s) l (smooth_curve point1 tang1 point2 tang2 a)
     = l + (\<Sum>k<n. vlength (vsub (smooth_curve point1 tang1 point2 tang2 (a + real k * s))
                                  (smooth_curve point1 tang1 point2 tang2 (a + real (Suc k) * s))))"
proof (induction n arbitrary: a l)
  case 0
  show ?case by simp
next
  case (Suc n)
  let ?B = "smooth_curve point1 tang1 point2 tang2"
  let ?d = "\<lambda>a k. vlength (vsub (?B (a + real k * s)) (?B (a + real (Suc k) * s)))"
  have "length_loop point1 tang1 point2 tang2 s (Suc n) (a + s) l (?B a)
          = length_loop point1 tang1 point2 tang2 s n ((a + s) + s)
              (l + vlength (vsub (?B a) (?B (a + s)))) (?B (a + s))"
    by (simp add: Let_def)
  also have "\<dots> = (l + vlength (vsub (?B a) (?B (a + s)))) + (\<Sum>k<n. ?d (a + s) k)"
    by (rule Suc.IH)
  also have "(\<Sum>k<n. ?d (a + s) k) = (\<Sum>k<n. ?d a (Suc k))"
    by (intro sum.cong refl) (simp add: algebra_simps)
  also have "(l + vlength (vsub (?B a) (?B (a + s)))) + (\<Sum>k<n. ?d a (Suc k))
               = l + (?d a 0 + (\<Sum>k<n. ?d a (Suc k)))"
    by simp
  also have "?d a 0 + (\<Sum>k<n. ?d a (Suc k)) = (\<Sum>k<Suc n. ?d a k)"
    by (simp only: sum.lessThan_Suc_shift)
  finally show ?case .
qed

lemma smooth_curve_start: "smooth_curve point1 tang1 point2 tang2 0 = point1"
  by (simp add: smooth_curve_def evaluate_bezier_curve_def compute_bernstein_def Let_def)

lemma compute_smooth_curve_length_sum:
  assumes "0 < n"
  shows "compute_smooth_curve_length point1 tang1 point2 tang2 (int n) =
     Inr (\<Sum>k<n. vlength (vsub (smooth_curve point1 tang1 point2 tang2 (real k / real n))
                               (smooth_curve point1 tang1 point2 tang2 (real (Suc k) / real n))))"
  using assms
    length_loop_sum [of point1 tang1 point2 tang2 "1 / real n" n 0 0]
  by (simp add: compute_smooth_curve_length_def py_div_def smooth_curve_start)

text \<open>
  Claim C4, amended. Apart from floating-point rounding, that is with every operation
  of the code evaluated in exact real arithmetic: for fixed waypoints and tangents and
  all \<open>n \<ge> 1\<close> and \<open>k \<ge> 1\<close>, both estimates are returned and the estimate with
  \<open>k * n\<close> steps is at least the estimate with \<open>n\<close> steps. The sample points of the
  finer estimate include those of the coarser one, so the triangle inequality applies
  chord by chord. The estimates the code computes in floating point carry a rounding
  error each, and between two of them the inequality holds only up to that error.
\<close>

theorem compute_smooth_curve_length_refine:
  assumes "1 \<le> n" "1 \<le> k"
  shows "case (compute_smooth_curve_length point1 tang1 point2 tang2 n,
               compute_smooth_curve_length point1 tang1 point2 tang2 (k * n)) of
           (Inr coarse, Inr fine) \<Rightarrow> coarse \<le> fine
         | _ \<Rightarrow> False"
proof -
  define N where "N = nat n"
  define K where "K = nat k"
  have n: "n = int N" and k: "k = int K" and pos: "0 < N" "0 < K"
    using assms by (simp_all add: N_def K_def)
  define g where "g j = smooth_curve point1 tang1 point2 tang2 (real j / real (N * K))" for j
  have r: "real (i * K) / real (N * K) = real i / real N" for i
    using pos by simp
  have "compute_smooth_curve_length point1 tang1 point2 tang2 (int N) =
      Inr (\<Sum>i<N. vlength (vsub (g (i * K)) (g (Suc i * K))))"
    unfolding g_def r by (rule compute_smooth_curve_length_sum [OF pos(1)])
  then have coarse: "compute_smooth_curve_length point1 tang1 point2 tang2 n =
      Inr (\<Sum>i<N. vlength (vsub (g (i * K)) (g (Suc i * K))))"
    by (simp only: n)
  have NK: "0 < N * K" using pos by simp
  have "compute_smooth_curve_length point1 tang1 point2 tang2 (int (N * K)) =
      Inr (\<Sum>j<N * K. vlength (vsub (g j) (g (Suc j))))"
    unfolding g_def by (rule compute_smooth_curve_length_sum [OF NK])
  moreover have "k * n = int (N * K)"
    by (simp add: n k)
  ultimately have fine: "compute_smooth_curve_length point1 tang1 point2 tang2 (k * n) =
      Inr (\<Sum>j<N * K. vlength (vsub (g j) (g (Suc j))))"
    by (simp only:)
  show ?thesis
    using polyline_refinement [where n = N and g = g and c = K] by (simp add: coarse fine)
qed

theorem compute_smooth_curve_length_refine_witness:
  "(1::int) \<le> 2 \<and> (1::int) \<le> 2 \<and>
   (case (compute_smooth_curve_length (Vector 0 0 0) (Vector 1 0 0) (Vector 0 0 0) (Vector (- 1) 0 0) 2,
          compute_smooth_curve_length (Vector 0 0 0) (Vector 1 0 0) (Vector 0 0 0) (Vector (- 1) 0 0) (2 * 2)) of
      (Inr coarse, Inr fine) \<Rightarrow> coarse \<le> fine
    | _ \<Rightarrow> False)"
  using compute_smooth_curve_length_refine [where n = 2 and k = 2 and ?point1.0 = "Vector 0 0 0"
      and ?tang1.0 = "Vector 1 0 0" and ?point2.0 = "Vector 0 0 0" and ?tang2.0 = "Vector (- 1) 0 0"]
  by simp

lemma vlength_along_x: "vlength (Vector x 0 0) = \<bar>x\<bar>"
  by (simp add: vlength_def)

lemma smooth_curve_along_x:
  "smooth_curve (Vector a 0 0) (Vector b 0 0) (Vector c 0 0) (Vector d 0 0) t =
     Vector ((1 - t) * (1 - t) * (1 - t) * a + 3 * t * (1 - t) * (1 - t) * (a + b)
             + 3 * t * t * (1 - t) * (c - d) + t * t * t * c) 0 0"
  by (simp add: smooth_curve_def evaluate_bezier_curve_def compute_bernstein_def Let_def
      vadd_def vsub_def)

text \<open>
  Claim C4 as stated (the estimate never decreases when the step count grows) fails. On
  the curve that leaves the origin along \<open>x\<close> and comes back to it, 2 steps sample the
  turning point and give 3/2, while 3 steps miss it and give 4/3.
\<close>

theorem length_not_monotone_counterexample:
  "compute_smooth_curve_length (Vector 0 0 0) (Vector 1 0 0) (Vector 0 0 0) (Vector (- 1) 0 0) 2
     = Inr (3 / 2) \<and>
   compute_smooth_curve_length (Vector 0 0 0) (Vector 1 0 0) (Vector 0 0 0) (Vector (- 1) 0 0) 3
     = Inr (4 / 3) \<and>
   (4 / 3 :: real) < 3 / 2"
  by (simp add: compute_smooth_curve_length_def py_div_def eval_nat_numeral Let_def
      smooth_curve_along_x vsub_def vlength_along_x)

section \<open>Properties of the intersection detector\<close>

subsection \<open>The loops examine the uniform chords in order\<close>

text \<open>
  In exact arithmetic the position variable is \<open>k * step\<close> after \<open>k\<close> passes, and with
  \<open>step = length / part_count\<close> and a nonzero length the quotient \<open>pos / length\<close> is
  \<open>k / part_count\<close>: the length cancels.
\<close>

lemma chord_coefs_uniform:
  assumes "len \<noteq> 0" "part_count \<noteq> 0" "step = len / real_of_int part_count"
  shows "chord_coefs len step (real_of_int k * step)
         = Inr (real_of_int k / real_of_int part_count,
                (real_of_int k + 1) / real_of_int part_count)"
  using assms by (simp add: chord_coefs_def py_div_def field_simps)

lemma chord_is_chord_uniform:
  assumes "len \<noteq> 0" "part_count \<noteq> 0" "step = len / real_of_int part_count"
  shows "chord c len step (real_of_int k * step) = Inr (chord_uniform c part_count k)"
  by (simp only: chord_def chord_coefs_uniform [OF assms] chord_uniform_def sum.case prod.case)

lemma next_position:
  "real_of_int k * step + step = real_of_int (k + 1) * step"
  by (simp add: algebra_simps)

lemma inner_loop_scan:
  assumes "length2 \<noteq> 0" "part_count \<noteq> 0" "step2 = length2 / real_of_int part_count"
    and "chord_uniform curve1 part_count i = (start1, end1)"
  shows "(case inner_loop curve2 length2 step2 part_count i start1 end1 [k..m]
                 (real_of_int k * step2) of
            Inl e \<Rightarrow> Inl e
          | Inr Continue \<Rightarrow> scan_uniform curve1 curve2 part_count rest
          | Inr (Return r) \<Rightarrow> Inr r)
         = scan_uniform curve1 curve2 part_count (map (Pair i) [k..m] @ rest)"
proof (induction "nat (m + 1 - k)" arbitrary: k)
  case 0
  then have "[k..m] = []" by simp
  then show ?case by simp
next
  case (Suc n)
  then have up: "[k..m] = k # [k + 1..m]"
    by (simp add: upto_rec1)
  have n: "n = nat (m + 1 - (k + 1))"
    using Suc.hyps(2) by simp
  note IH = Suc.hyps(1) [OF n]
  obtain start2 end2 where c2: "chord_uniform curve2 part_count k = (start2, end2)"
    by (cases "chord_uniform curve2 part_count k") auto
  let ?t = "chord_test part_count i k start1 end1 start2 end2"
  have loop: "inner_loop curve2 length2 step2 part_count i start1 end1 (k # [k + 1..m])
                (real_of_int k * step2)
              = (case ?t of
                   Inl e \<Rightarrow> Inl e
                 | Inr Continue \<Rightarrow>
                     inner_loop curve2 length2 step2 part_count i start1 end1 [k + 1..m]
                       (real_of_int (k + 1) * step2)
                 | Inr (Return r) \<Rightarrow> Inr (Return r))"
    by (simp only: inner_loop.simps chord_is_chord_uniform [OF assms(1,2,3)] c2 next_position
        sum.case prod.case)
  have scan: "scan_uniform curve1 curve2 part_count (map (Pair i) (k # [k + 1..m]) @ rest)
              = (case ?t of
                   Inl e \<Rightarrow> Inl e
                 | Inr Continue \<Rightarrow>
                     scan_uniform curve1 curve2 part_count (map (Pair i) [k + 1..m] @ rest)
                 | Inr (Return r) \<Rightarrow> Inr r)"
    by (simp add: pair_test_def assms(4) c2)
  show ?case
  proof (cases ?t)
    case (Inl e)
    then show ?thesis unfolding up loop scan by simp
  next
    case (Inr f)
    then show ?thesis unfolding up loop scan using IH by (cases f) simp_all
  qed
qed

lemma outer_loop_scan:
  assumes "length1 \<noteq> 0" "length2 \<noteq> 0" "part_count \<noteq> 0"
    and "step1 = length1 / real_of_int part_count" "step2 = length2 / real_of_int part_count"
  shows "outer_loop curve1 curve2 length1 length2 step1 step2 part_count [k..m]
           (real_of_int k * step1)
         = scan_uniform curve1 curve2 part_count (List.product [k..m] [0..part_count - 1])"
proof (induction "nat (m + 1 - k)" arbitrary: k)
  case 0
  then have "[k..m] = []" by simp
  then show ?case by simp
next
  case (Suc n)
  then have up: "[k..m] = k # [k + 1..m]"
    by (simp add: upto_rec1)
  have n: "n = nat (m + 1 - (k + 1))"
    using Suc.hyps(2) by simp
  note IH = Suc.hyps(1) [OF n]
  obtain start1 end1 where c1: "chord_uniform curve1 part_count k = (start1, end1)"
    by (cases "chord_uniform curve1 part_count k") auto
  let ?inner = "inner_loop curve2 length2 step2 part_count k start1 end1 [0..part_count - 1] 0"
  let ?rest = "List.product [k + 1..m] [0..part_count - 1]"
  have inner: "(case ?inner of
            Inl e \<Rightarrow> Inl e
          | Inr Continue \<Rightarrow> scan_uniform curve1 curve2 part_count ?rest
          | Inr (Return r) \<Rightarrow> Inr r)
         = scan_uniform curve1 curve2 part_count (map (Pair k) [0..part_count - 1] @ ?rest)"
    using inner_loop_scan [OF assms(2,3,5) c1, where k = 0 and m = "part_count - 1"
        and rest = ?rest and ?curve2.0 = curve2]
    by simp
  have loop: "outer_loop curve1 curve2 length1 length2 step1 step2 part_count (k # [k + 1..m])
                (real_of_int k * step1)
              = (case ?inner of
                   Inl e \<Rightarrow> Inl e
                 | Inr (Return r) \<Rightarrow> Inr r
                 | Inr Continue \<Rightarrow>
                     outer_loop curve1 curve2 length1 length2 step1 step2 part_count [k + 1..m]
                       (real_of_int (k + 1) * step1))"
    by (simp only: outer_loop.simps chord_is_chord_uniform [OF assms(1,3,4)] c1 next_position
        sum.case prod.case)
  show ?case
  proof (cases ?inner)
    case (Inl e)
    then show ?thesis unfolding up loop using inner by simp
  next
    case (Inr f)
    then show ?thesis unfolding up loop using inner IH by (cases f) simp_all
  qed
qed

lemma curves_intersect_scan:
  assumes "Length curve1 \<noteq> 0" "Length curve2 \<noteq> 0" "part_count \<noteq> 0"
  shows "curves_intersect curve1 curve2 part_count =
         scan_uniform curve1 curve2 part_count
           (List.product [0..part_count - 1] [0..part_count - 1])"
  using outer_loop_scan [OF assms refl refl, where k = 0 and m = "part_count - 1"
      and ?curve1.0 = curve1 and ?curve2.0 = curve2] assms
  by (simp add: curves_intersect_def py_div_def Let_def)





subsection \<open>Boundary exclusion\<close>

lemma product_append:
  "List.product (xs @ ys) zs = List.product xs zs @ List.product ys zs"
  by (induction xs) simp_all

lemma scan_uniform_first_return:
  assumes "\<forall>p \<in> set ps. pair_test curve1 curve2 part_count (fst p) (snd p) = Inr Continue"
    and "pair_test curve1 curve2 part_count i j = Inr (Return r)"
  shows "scan_uniform curve1 curve2 part_count (ps @ (i, j) # qs) = Inr r"
  using assms by (induction ps) auto

lemma product_split_at:
  assumes "0 \<le> i" "i < part_count" "0 \<le> j" "j < part_count"
  shows "List.product [0..part_count - 1] [0..part_count - 1] =
           (List.product [0..i - 1] [0..part_count - 1] @ map (Pair i) [0..j - 1])
           @ (i, j) # (map (Pair i) [j + 1..part_count - 1]
                       @ List.product [i + 1..part_count - 1] [0..part_count - 1])"
proof -
  have rows: "[0..part_count - 1] = [0..i - 1] @ i # [i + 1..part_count - 1]"
    using assms by (intro upto_split3) simp_all
  have cols: "[0..part_count - 1] = [0..j - 1] @ j # [j + 1..part_count - 1]"
    using assms by (intro upto_split3) simp_all
  have "List.product [0..part_count - 1] [0..part_count - 1] =
          List.product [0..i - 1] [0..part_count - 1]
          @ map (Pair i) [0..part_count - 1]
          @ List.product [i + 1..part_count - 1] [0..part_count - 1]"
    by (subst rows) (simp add: product_append)
  also have "map (Pair i) [0..part_count - 1] =
               map (Pair i) [0..j - 1] @ (i, j) # map (Pair i) [j + 1..part_count - 1]"
    by (subst cols) simp
  finally show ?thesis by simp
qed

lemma chord_test_boundary:
  fixes mu_a mu_b :: real
  assumes "1 / 100 \<le> \<bar>denom start1 end1 start2 end2\<bar>"
    and "mu_a = nume_a start1 end1 start2 end2 / denom start1 end1 start2 end2"
    and "mu_b = nume_b start1 end1 start2 end2 / denom start1 end1 start2 end2"
    and "0 \<le> mu_a" "mu_a \<le> 1" "0 \<le> mu_b" "mu_b \<le> 1"
    and "(mu_a < 1 / 100 \<and> i = 0) \<or> (mu_b < 1 / 100 \<and> j = 0) \<or>
         (mu_a > 99 / 100 \<and> i = part_count - 1) \<or> (mu_b > 99 / 100 \<and> j = part_count - 1)"
  shows "chord_test part_count i j start1 end1 start2 end2 = Inr (Return None)"
proof -
  have nz: "denom start1 end1 start2 end2 \<noteq> 0"
    using assms(1) by auto
  have da: "py_div (nume_a start1 end1 start2 end2) (denom start1 end1 start2 end2) = Inr mu_a"
    and db: "py_div (nume_b start1 end1 start2 end2) (denom start1 end1 start2 end2) = Inr mu_b"
    using nz assms(2,3) by (simp_all add: py_div_def)
  have "\<not> \<bar>denom start1 end1 start2 end2\<bar> < 1 / 100"
    using assms(1) by simp
  then show ?thesis
    unfolding chord_test_def Let_def da db
    using assms(4-8) by auto
qed

lemma example_chords:
  "chord_uniform example_curve1 2 0 = (Vector 0 0 0, Vector 1 0 0)"
  "chord_uniform example_curve2 2 0 = (Vector 0 0 4, Vector 0 0 2)"
  "chord_uniform example_curve2 2 1 = (Vector 0 0 2, Vector 0 0 0)"
  by (simp_all add: chord_uniform_def smooth_curve_def evaluate_bezier_curve_def
      compute_bernstein_def Let_def vadd_def vsub_def)

text \<open>
  Claim C2. Let \<open>part_count \<ge> 1\<close> and let the scan reach the chord pair \<open>(i, j)\<close>: the
  lengths are not 0 and every pair before \<open>(i, j)\<close> in the order of the loops was
  skipped. If the crossing of this pair qualifies (\<open>|denom| \<ge> 0.01\<close>, \<open>mu_a\<close> and
  \<open>mu_b\<close> in the unit interval) and \<open>mu_a < 0.01\<close> with \<open>i = 0\<close>, or \<open>mu_b < 0.01\<close> with
  \<open>j = 0\<close>, or \<open>mu_a > 0.99\<close> with \<open>i = part_count - 1\<close>, or \<open>mu_b > 0.99\<close> with
  \<open>j = part_count - 1\<close>, then \<open>curves_intersect\<close> returns \<open>None\<close>, whatever the
  remaining chord pairs are.
\<close>

theorem curves_intersect_boundary_exclusion:
  fixes mu_a mu_b :: real
  assumes "1 \<le> part_count" "Length curve1 \<noteq> 0" "Length curve2 \<noteq> 0"
    and "0 \<le> i" "i < part_count" "0 \<le> j" "j < part_count"
    and "\<forall>i' j'. 0 \<le> i' \<and> i' < part_count \<and> 0 \<le> j' \<and> j' < part_count \<and>
                 (i' < i \<or> (i' = i \<and> j' < j))
           \<longrightarrow> pair_test curve1 curve2 part_count i' j' = Inr Continue"
    and "chord_uniform curve1 part_count i = (start1, end1)"
    and "chord_uniform curve2 part_count j = (start2, end2)"
    and "1 / 100 \<le> \<bar>denom start1 end1 start2 end2\<bar>"
    and "mu_a = nume_a start1 end1 start2 end2 / denom start1 end1 start2 end2"
    and "mu_b = nume_b start1 end1 start2 end2 / denom start1 end1 start2 end2"
    and "0 \<le> mu_a" "mu_a \<le> 1" "0 \<le> mu_b" "mu_b \<le> 1"
    and "(mu_a < 1 / 100 \<and> i = 0) \<or> (mu_b < 1 / 100 \<and> j = 0) \<or>
         (mu_a > 99 / 100 \<and> i = part_count - 1) \<or> (mu_b > 99 / 100 \<and> j = part_count - 1)"
  shows "curves_intersect curve1 curve2 part_count = Inr None"
proof -
  let ?before = "List.product [0..i - 1] [0..part_count - 1] @ map (Pair i) [0..j - 1]"
  let ?after = "map (Pair i) [j + 1..part_count - 1]
                  @ List.product [i + 1..part_count - 1] [0..part_count - 1]"
  have here: "pair_test curve1 curve2 part_count i j = Inr (Return None)"
    unfolding pair_test_def assms(9,10) prod.case
    by (rule chord_test_boundary [OF assms(11-18)])
  have before: "\<forall>p \<in> set ?before. pair_test curve1 curve2 part_count (fst p) (snd p) = Inr Continue"
  proof
    fix p assume p: "p \<in> set ?before"
    obtain i' j' where ij: "p = (i', j')" by (cases p)
    from p have "0 \<le> i' \<and> i' < part_count \<and> 0 \<le> j' \<and> j' < part_count \<and>
                 (i' < i \<or> (i' = i \<and> j' < j))"
      using assms(4-7) unfolding ij by auto
    with assms(8) show "pair_test curve1 curve2 part_count (fst p) (snd p) = Inr Continue"
      unfolding ij by simp
  qed
  have "part_count \<noteq> 0" using assms(1) by simp
  then have "curves_intersect curve1 curve2 part_count =
          scan_uniform curve1 curve2 part_count (?before @ (i, j) # ?after)"
    using curves_intersect_scan [OF assms(2,3)] product_split_at [OF assms(4-7)]
    by simp
  also have "\<dots> = Inr None"
    by (rule scan_uniform_first_return [OF before here])
  finally show ?thesis .
qed

theorem curves_intersect_boundary_exclusion_witness:
  "pair_test example_curve1 example_curve2 2 0 0 = Inr Continue \<and>
   chord_test 2 0 1 (Vector 0 0 0) (Vector 1 0 0) (Vector 0 0 2) (Vector 0 0 0) = Inr (Return None) \<and>
   curves_intersect example_curve1 example_curve2 2 = Inr None"
proof -
  have first: "pair_test example_curve1 example_curve2 2 0 0 = Inr Continue"
    unfolding pair_test_def example_chords prod.case
    by (simp add: chord_test_def denom_def nume_a_def nume_b_def py_div_def Let_def)
  have second: "chord_test 2 0 1 (Vector 0 0 0) (Vector 1 0 0) (Vector 0 0 2) (Vector 0 0 0)
                  = Inr (Return None)"
    by (simp add: chord_test_def denom_def nume_a_def nume_b_def py_div_def Let_def)
  have reached: "\<forall>i' j'. 0 \<le> i' \<and> i' < 2 \<and> 0 \<le> j' \<and> j' < 2 \<and> (i' < 0 \<or> (i' = 0 \<and> j' < 1))
           \<longrightarrow> pair_test example_curve1 example_curve2 2 i' j' = Inr Continue"
  proof (intro allI impI)
    fix i' j' :: int
    assume "0 \<le> i' \<and> i' < 2 \<and> 0 \<le> j' \<and> j' < 2 \<and> (i' < 0 \<or> (i' = 0 \<and> j' < 1))"
    then have "i' = 0" "j' = 0" by auto
    then show "pair_test example_curve1 example_curve2 2 i' j' = Inr Continue"
      using first by simp
  qed
  have "curves_intersect example_curve1 example_curve2 2 = Inr None"
    by (rule curves_intersect_boundary_exclusion
          [where i = 0 and j = 1 and mu_a = 0 and mu_b = 1
             and ?start1.0 = "Vector 0 0 0" and ?end1.0 = "Vector 1 0 0"
             and ?start2.0 = "Vector 0 0 2" and ?end2.0 = "Vector 0 0 0",
           OF _ _ _ _ _ _ _ reached])
       (simp_all add: example_chords denom_def nume_a_def nume_b_def)
  with first second show ?thesis by simp
qed

end
